theory Spec2Isabelle
  imports Complex_Main
begin

section \<open>The timing harness of the notebook\<close>

text \<open>
  The notebook \<^verbatim>\<open>local-rdd.ipynb\<close> defines
  \<^verbatim>\<open>
  class Benchmark(object):
      def __init__(self, rdd):
          self.rdd = rdd
      def run(self, name):
          t = timeit.Timer(lambda: funcs[name](self.rdd))
          r = min([t.timeit(3)/3.0 * 1000 for _ in range(3)])
          return r
  \<close>
  where \<^verbatim>\<open>funcs\<close> is a module-level dictionary from names to closures.

  Time is what the environment makes of it, so the model passes a world along: the reading
  of the timer, the time one evaluation of \<^verbatim>\<open>funcs[name]\<close> takes, and the
  sequence of events so far. Durations are exact rationals (seconds); the rounding of
  Python's floats is left out. A closure of the catalog is called with the object in
  \<^verbatim>\<open>self.rdd\<close> and the current time; it returns a value or raises, leaves the
  object in some state (Python passes the reference, so a closure could change it) and
  leaves the clock at a later reading.

  An exception is \<^verbatim>\<open>KeyError\<close> with its key, \<^verbatim>\<open>ValueError\<close>, or any
  other; a closure may raise any of them.
\<close>

datatype 'x exn = KeyError string | ValueError | Other 'x

datatype event = TimerRead | Lookup string | Call string

record world =
  clock :: rat
  lookup_cost :: rat
  trace :: "event list"

record 'r Benchmark =
  rdd :: 'r

type_synonym ('r, 'x, 'a) closure = "'r \<Rightarrow> rat \<Rightarrow> ('x exn + 'a) \<times> 'r \<times> rat"

type_synonym ('r, 'x, 'a) catalog = "string \<rightharpoonup> ('r, 'x, 'a) closure"

type_synonym 'r state = "'r Benchmark \<times> world"

definition Benchmark_init :: "'r \<Rightarrow> 'r Benchmark" where
  "Benchmark_init r = \<lparr>rdd = r\<rparr>"

definition log_event :: "event \<Rightarrow> world \<Rightarrow> world" where
  "log_event e w = w\<lparr>trace := trace w @ [e]\<rparr>"

text \<open>
  One evaluation of the timed statement \<^verbatim>\<open>lambda: funcs[name](self.rdd)\<close>: the
  dictionary lookup (a missing key raises \<^verbatim>\<open>KeyError\<close>), then the call. The value
  the closure returns is dropped.
\<close>

definition stmt :: "('r, 'x, 'a) catalog \<Rightarrow> string \<Rightarrow> 'r state \<Rightarrow> ('x exn + unit) \<times> 'r state" where
  "stmt fs name s =
     (let b = fst s;
          w1 = log_event (Lookup name) ((snd s)\<lparr>clock := clock (snd s) + lookup_cost (snd s)\<rparr>)
      in case fs name of
           None \<Rightarrow> (Inl (KeyError name), (b, w1))
         | Some c \<Rightarrow>
             (case c (rdd b) (clock w1) of
                (out, r', t') \<Rightarrow>
                  (case out of
                     Inl x \<Rightarrow> (Inl x, (b\<lparr>rdd := r'\<rparr>, log_event (Call name) (w1\<lparr>clock := t'\<rparr>)))
                   | Inr v \<Rightarrow> (Inr (), (b\<lparr>rdd := r'\<rparr>, log_event (Call name) (w1\<lparr>clock := t'\<rparr>))))))"

text \<open>
  \<^verbatim>\<open>timeit.Timer.timeit(number)\<close> of the standard library reads the timer, runs the
  statement \<^verbatim>\<open>number\<close> times in a loop, reads the timer again and returns the
  difference; an exception of the statement leaves the loop and \<^verbatim>\<open>timeit\<close>.
\<close>

fun inner :: "nat \<Rightarrow> ('r, 'x, 'a) catalog \<Rightarrow> string \<Rightarrow> 'r state \<Rightarrow> ('x exn + unit) \<times> 'r state" where
  "inner 0 fs name s = (Inr (), s)"
| "inner (Suc n) fs name s =
     (case stmt fs name s of
        (Inl e, s') \<Rightarrow> (Inl e, s')
      | (Inr u, s') \<Rightarrow> inner n fs name s')"

definition timeit :: "nat \<Rightarrow> ('r, 'x, 'a) catalog \<Rightarrow> string \<Rightarrow> 'r state \<Rightarrow> ('x exn + rat) \<times> 'r state" where
  "timeit number fs name s =
     (let t0 = clock (snd s)
      in case inner number fs name (fst s, log_event TimerRead (snd s)) of
           (Inl e, s') \<Rightarrow> (Inl e, s')
         | (Inr u, s') \<Rightarrow> (Inr (clock (snd s') - t0), (fst s', log_event TimerRead (snd s'))))"

text \<open>The list comprehension \<^verbatim>\<open>[t.timeit(3)/3.0 * 1000 for _ in range(n)]\<close>.\<close>

fun trials :: "nat \<Rightarrow> ('r, 'x, 'a) catalog \<Rightarrow> string \<Rightarrow> 'r state \<Rightarrow> ('x exn + rat list) \<times> 'r state" where
  "trials 0 fs name s = (Inr [], s)"
| "trials (Suc n) fs name s =
     (case timeit 3 fs name s of
        (Inl e, s') \<Rightarrow> (Inl e, s')
      | (Inr t, s') \<Rightarrow>
          (case trials n fs name s' of
             (Inl e, s'') \<Rightarrow> (Inl e, s'')
           | (Inr ts, s'') \<Rightarrow> (Inr (t / 3 * 1000 # ts), s'')))"

text \<open>Python's \<^verbatim>\<open>min\<close> of a list raises \<^verbatim>\<open>ValueError\<close> on the empty list.\<close>

fun py_min :: "rat list \<Rightarrow> 'x exn + rat" where
  "py_min [] = Inl ValueError"
| "py_min (x # xs) = Inr (fold min xs x)"

definition run :: "('r, 'x, 'a) catalog \<Rightarrow> 'r Benchmark \<Rightarrow> string \<Rightarrow> world \<Rightarrow> ('x exn + rat) \<times> 'r state" where
  "run fs self name w =
     (case trials 3 fs name (self, w) of
        (Inl e, s') \<Rightarrow> (Inl e, s')
      | (Inr ts, s') \<Rightarrow> (py_min ts, s'))"

section \<open>Batches of runs in the notebook\<close>

text \<open>
  The notebook times the whole catalog twice, once per backend:
  \<^verbatim>\<open>distributed = [t.run(k) for k in funcs.keys()]\<close> and
  \<^verbatim>\<open>local = [t.run(k) for k in funcs.keys()]\<close>.
  The comprehension calls \<^verbatim>\<open>run\<close> for each key in turn; an exception of a run
  leaves the comprehension, and then the assignment does not happen. The order of
  \<^verbatim>\<open>funcs.keys()\<close> is the dictionary's own, so the list of keys is a parameter.
\<close>

fun batch :: "('r, 'x, 'a) catalog \<Rightarrow> string list \<Rightarrow> 'r state \<Rightarrow> ('x exn + rat list) \<times> 'r state" where
  "batch fs [] s = (Inr [], s)"
| "batch fs (k # ks) s =
     (case run fs (fst s) k (snd s) of
        (Inl e, s') \<Rightarrow> (Inl e, s')
      | (Inr t, s') \<Rightarrow>
          (case batch fs ks s' of
             (Inl e, s'') \<Rightarrow> (Inl e, s'')
           | (Inr ts, s'') \<Rightarrow> (Inr (t # ts), s'')))"

text \<open>The two names the notebook binds to batches; \<open>None\<close> is a name not bound yet.\<close>

record namespace =
  distributed :: "rat list option"
  local :: "rat list option"

definition cell_distributed ::
  "('r, 'x, 'a) catalog \<Rightarrow> string list \<Rightarrow> namespace \<Rightarrow> 'r state \<Rightarrow> 'x exn option \<times> namespace \<times> 'r state" where
  "cell_distributed fs keys ns s =
     (case batch fs keys s of
        (Inl e, s') \<Rightarrow> (Some e, ns, s')
      | (Inr ts, s') \<Rightarrow> (None, ns\<lparr>distributed := Some ts\<rparr>, s'))"

definition cell_local ::
  "('r, 'x, 'a) catalog \<Rightarrow> string list \<Rightarrow> namespace \<Rightarrow> 'r state \<Rightarrow> 'x exn option \<times> namespace \<times> 'r state" where
  "cell_local fs keys ns s =
     (case batch fs keys s of
        (Inl e, s') \<Rightarrow> (Some e, ns, s')
      | (Inr ts, s') \<Rightarrow> (None, ns\<lparr>local := Some ts\<rparr>, s'))"

section \<open>The local collection engine\<close>

text \<open>
  The notebook imports the engine (\<^verbatim>\<open>from thunder.rdds.local import LocalRDD\<close>) and
  only calls it; the class itself is not among the notebook's sources. Its operations are
  therefore taken from the specification's data model and operation table.

  Modelled from the spec: the Collection, "an ordered sequence of Records", a Record being
  "an immutable pair (key, value)"; the class \<^verbatim>\<open>LocalRDD\<close> is missing.
\<close>

type_synonym ('k, 'v) Collection = "('k \<times> 'v) list"

datatype engine_error = LengthMismatchError | EmptyCollectionError

text \<open>
  Modelled from the spec: construction \<^verbatim>\<open>Collection::from(values, keys)\<close>, which
  "requires len(values) == len(keys); fails with LengthMismatchError otherwise"; the
  constructor of \<^verbatim>\<open>LocalRDD\<close> is missing.
\<close>

definition Collection_from :: "'v list \<Rightarrow> 'k list \<Rightarrow> engine_error + ('k, 'v) Collection" where
  "Collection_from values keys =
     (if length values = length keys then Inr (zip keys values) else Inl LengthMismatchError)"

text \<open>
  Modelled from the spec: \<^verbatim>\<open>map_values(f)\<close>, a "new Collection of (K, V2), same
  length and key sequence", that "applies f independently to each value"; the method
  \<^verbatim>\<open>LocalRDD.mapValues\<close> is missing.
\<close>

definition map_values :: "('v \<Rightarrow> 'u) \<Rightarrow> ('k, 'v) Collection \<Rightarrow> ('k, 'u) Collection" where
  "map_values f c = map (\<lambda>(k, v). (k, f v)) c"

text \<open>
  Modelled from the spec: \<^verbatim>\<open>filter(p)\<close>, a "new Collection containing exactly the
  records for which p is true, relative order among retained records preserved"; the method
  \<^verbatim>\<open>LocalRDD.filter\<close> is missing.
\<close>

definition filter_rdd :: "('k \<times> 'v \<Rightarrow> bool) \<Rightarrow> ('k, 'v) Collection \<Rightarrow> ('k, 'v) Collection" where
  "filter_rdd p c = filter p c"

text \<open>
  Modelled from the spec: \<^verbatim>\<open>reduce(f)\<close>, a "single combined V across all values, key
  ignored", which "fails with EmptyCollectionError if the collection has zero records"; the
  values are combined from the left (the spec allows any order); the method
  \<^verbatim>\<open>LocalRDD.reduce\<close> is missing.
\<close>

definition reduce :: "('v \<Rightarrow> 'v \<Rightarrow> 'v) \<Rightarrow> ('k, 'v) Collection \<Rightarrow> engine_error + 'v" where
  "reduce f c =
     (case c of
        [] \<Rightarrow> Inl EmptyCollectionError
      | (k, v) # rest \<Rightarrow> Inr (foldl f v (map snd rest)))"

text \<open>
  Modelled from the spec: \<^verbatim>\<open>group_by_key()\<close>, the Grouped Collection, "a mapping from
  each distinct key K to the ordered sequence of values associated with that key in the
  original collection"; it is kept as an association list with one entry per distinct key
  (the order of the entries is unspecified in the spec); the method
  \<^verbatim>\<open>LocalRDD.groupByKey\<close> is missing.
\<close>

definition group_by_key :: "('k, 'v) Collection \<Rightarrow> ('k \<times> 'v list) list" where
  "group_by_key c =
     map (\<lambda>k. (k, map snd (filter (\<lambda>kv. fst kv = k) c))) (remdups (map fst c))"

text \<open>
  Modelled from the spec: \<^verbatim>\<open>reduce_by_key(f)\<close>, a "new Collection of (K, V), one
  record per distinct key, value = fold of f over that key's values", "equivalent to
  group_by_key then per-group reduce"; the method \<^verbatim>\<open>LocalRDD.reduceByKey\<close> is
  missing.
\<close>

definition reduce_by_key :: "('v \<Rightarrow> 'v \<Rightarrow> 'v) \<Rightarrow> ('k, 'v) Collection \<Rightarrow> ('k, 'v) Collection" where
  "reduce_by_key f c =
     concat (map (\<lambda>(k, vs). case vs of [] \<Rightarrow> [] | v # rest \<Rightarrow> [(k, foldl f v rest)])
               (group_by_key c))"

text \<open>
  Modelled from the spec: \<^verbatim>\<open>count()\<close>, the "integer count of records"; the method
  \<^verbatim>\<open>LocalRDD.count\<close> is missing.
\<close>

definition count_rdd :: "('k, 'v) Collection \<Rightarrow> nat" where
  "count_rdd c = length c"

text \<open>
  Modelled from the spec: \<^verbatim>\<open>collect()\<close>, "the full ordered sequence of values (keys
  discarded)"; the method \<^verbatim>\<open>LocalRDD.collect\<close> is missing.
\<close>

definition collect :: "('k, 'v) Collection \<Rightarrow> 'v list" where
  "collect c = map snd c"

text \<open>
  Modelled from the spec: the operation table of the engine as one interface, every
  operation applied to a Collection giving a result or an error of the engine; the class
  \<^verbatim>\<open>LocalRDD\<close> is missing.
\<close>

datatype ('k, 'v) operation =
    MapValues "'v \<Rightarrow> 'v"
  | Filter "'k \<times> 'v \<Rightarrow> bool"
  | Reduce "'v \<Rightarrow> 'v \<Rightarrow> 'v"
  | GroupByKey
  | ReduceByKey "'v \<Rightarrow> 'v \<Rightarrow> 'v"
  | Count
  | Collect

datatype ('k, 'v) result =
    Records "('k, 'v) Collection"
  | Groups "('k \<times> 'v list) list"
  | Single 'v
  | Number nat
  | Sequence "'v list"

fun apply_operation :: "('k, 'v) operation \<Rightarrow> ('k, 'v) Collection \<Rightarrow> engine_error + ('k, 'v) result" where
  "apply_operation (MapValues f) c = Inr (Records (map_values f c))"
| "apply_operation (Filter p) c = Inr (Records (filter_rdd p c))"
| "apply_operation (Reduce f) c = map_sum id Single (reduce f c)"
| "apply_operation GroupByKey c = Inr (Groups (group_by_key c))"
| "apply_operation (ReduceByKey f) c = Inr (Records (reduce_by_key f c))"
| "apply_operation Count c = Inr (Number (count_rdd c))"
| "apply_operation Collect c = Inr (Sequence (collect c))"

section \<open>The catalog of the notebook\<close>

text \<open>
  \<^verbatim>\<open>
  funcs = {}
  funcs['sum'] = lambda rdd: rdd.values().reduce(add)
  funcs['max'] = lambda rdd: rdd.values().reduce(maximum)
  funcs['filter'] = lambda rdd: rdd.filter(lambda (k, v): k > 50).count()
  funcs['map'] = lambda rdd: rdd.mapValues(lambda x: x.sum()).count()
  funcs['collect'] = lambda rdd: rdd.values().collect()
  funcs['reduceByKey'] = lambda rdd: rdd.reduceByKey(add).count()
  funcs['groupByKey'] = lambda rdd: rdd.groupByKey().count()
  \<close>
  Each closure evaluates an expression of the engine on the collection it is given. The
  engine's operations build new collections, so the collection is handed back as it came;
  the value or the error of the expression is the closure's; the time the evaluation
  takes is the environment's, given by a function of the collection and the starting time.
\<close>

definition timed :: "('r \<Rightarrow> rat \<Rightarrow> rat) \<Rightarrow> ('r \<Rightarrow> 'x exn + 'a) \<Rightarrow> ('r, 'x, 'a) closure" where
  "timed d g r t = (g r, r, t + d r t)"

text \<open>
  numpy's \<^verbatim>\<open>add\<close> and \<^verbatim>\<open>maximum\<close> and the method \<^verbatim>\<open>sum\<close> of the
  values are parameters, as is the time each entry takes. \<^verbatim>\<open>rdd.values()\<close> drops the
  keys, which the engine's \<open>reduce\<close> and \<open>collect\<close> do themselves.
\<close>

definition funcs ::
  "(string \<Rightarrow> (int, 'v) Collection \<Rightarrow> rat \<Rightarrow> rat) \<Rightarrow> ('v \<Rightarrow> 'v \<Rightarrow> 'v) \<Rightarrow> ('v \<Rightarrow> 'v \<Rightarrow> 'v) \<Rightarrow> ('v \<Rightarrow> 'v) \<Rightarrow>
     ((int, 'v) Collection, engine_error, (int, 'v) result) catalog" where
  "funcs dur add maximum vsum =
     [''sum'' \<mapsto> timed (dur ''sum'') (\<lambda>r. map_sum Other Single (reduce add r)),
      ''max'' \<mapsto> timed (dur ''max'') (\<lambda>r. map_sum Other Single (reduce maximum r)),
      ''filter'' \<mapsto> timed (dur ''filter'') (\<lambda>r. Inr (Number (count_rdd (filter_rdd (\<lambda>(k, v). k > 50) r)))),
      ''map'' \<mapsto> timed (dur ''map'') (\<lambda>r. Inr (Number (count_rdd (map_values vsum r)))),
      ''collect'' \<mapsto> timed (dur ''collect'') (\<lambda>r. Inr (Sequence (collect r))),
      ''reduceByKey'' \<mapsto> timed (dur ''reduceByKey'') (\<lambda>r. Inr (Number (count_rdd (reduce_by_key add r)))),
      ''groupByKey'' \<mapsto> timed (dur ''groupByKey'') (\<lambda>r. Inr (Number (length (group_by_key r))))]"

section \<open>The course of a run\<close>

text \<open>
  The timed statement is evaluated again and again, each evaluation starting with the
  collection and the clock as the one before left them (reading the timer takes no time
  in this model). \<open>state_at c lk s k\<close> is the collection and the clock after \<open>k\<close>
  evaluations that returned, \<open>outcome_at c lk s k\<close> what the next evaluation gives, and
  \<open>trial_mean c lk s i\<close> the time trial \<open>i\<close> takes, divided by three, in milliseconds;
  \<open>lk\<close> is the time of the lookup.
\<close>

definition invoke :: "('r, 'x, 'a) closure \<Rightarrow> rat \<Rightarrow> 'r \<times> rat \<Rightarrow> ('x exn + 'a) \<times> 'r \<times> rat" where
  "invoke c lk s = c (fst s) (snd s + lk)"

definition after :: "('r, 'x, 'a) closure \<Rightarrow> rat \<Rightarrow> 'r \<times> rat \<Rightarrow> 'r \<times> rat" where
  "after c lk s = snd (invoke c lk s)"

definition state_at :: "('r, 'x, 'a) closure \<Rightarrow> rat \<Rightarrow> 'r \<times> rat \<Rightarrow> nat \<Rightarrow> 'r \<times> rat" where
  "state_at c lk s k = (after c lk ^^ k) s"

definition outcome_at :: "('r, 'x, 'a) closure \<Rightarrow> rat \<Rightarrow> 'r \<times> rat \<Rightarrow> nat \<Rightarrow> 'x exn + 'a" where
  "outcome_at c lk s k = fst (invoke c lk (state_at c lk s k))"

definition trial_mean :: "('r, 'x, 'a) closure \<Rightarrow> rat \<Rightarrow> 'r \<times> rat \<Rightarrow> nat \<Rightarrow> rat" where
  "trial_mean c lk s i =
     (snd (state_at c lk s (3 * i + 3)) - snd (state_at c lk s (3 * i))) / 3 * 1000"

text \<open>The events of one trial: the timer, the lookups and calls, the timer again.\<close>

definition window :: "string \<Rightarrow> nat \<Rightarrow> event list" where
  "window name n = TimerRead # concat (replicate n [Lookup name, Call name]) @ [TimerRead]"

definition here :: "'r state \<Rightarrow> 'r \<times> rat" where
  "here s = (rdd (fst s), clock (snd s))"

definition moved :: "'r state \<Rightarrow> 'r \<times> rat \<Rightarrow> event list \<Rightarrow> 'r state" where
  "moved s p es = ((fst s)\<lparr>rdd := fst p\<rparr>, (snd s)\<lparr>clock := snd p, trace := trace (snd s) @ es\<rparr>)"

section \<open>Sample inputs\<close>

definition world0 :: world where
  "world0 = \<lparr>clock = 0, lookup_cost = 0, trace = []\<rparr>"

text \<open>A closure that takes \<open>d\<close> seconds and returns, and one that raises at once.\<close>

definition delay :: "rat \<Rightarrow> (unit, string, unit) closure" where
  "delay d = timed (\<lambda>r t. d) (\<lambda>r. Inr ())"

definition boom :: "(unit, string, unit) closure" where
  "boom = timed (\<lambda>r t. 0) (\<lambda>r. Inl (Other ''boom''))"

text \<open>A closure that returns until the clock shows three seconds and raises from then on.\<close>

definition late_boom :: "(unit, string, unit) closure" where
  "late_boom r t = (if t < 3 then Inr () else Inl (Other ''boom''), r, t + 1)"

section \<open>Lemmas on the loops of a run\<close>

lemma state_at_0: "state_at c lk s 0 = s" by (simp add: state_at_def)
lemma state_at_Suc: "state_at c lk s (Suc k) = state_at c lk (after c lk s) k"
  by (simp add: state_at_def funpow_swap1)
lemma state_at_add: "state_at c lk s (m + n) = state_at c lk (state_at c lk s m) n"
proof -
  have "(after c lk ^^ (n + m)) s = (after c lk ^^ n) ((after c lk ^^ m) s)"
    by (simp add: funpow_add)
  then show ?thesis by (simp add: state_at_def add.commute)
qed
lemma outcome_at_Suc: "outcome_at c lk s (Suc k) = outcome_at c lk (after c lk s) k"
  by (simp add: outcome_at_def state_at_Suc)
lemma outcome_at_add: "outcome_at c lk s (m + n) = outcome_at c lk (state_at c lk s m) n"
  by (simp add: outcome_at_def state_at_add)

lemma here_moved: "here (moved s p es) = p" by (simp add: here_def moved_def)
lemma moved_moved: "moved (moved s p es) q fs = moved s q (es @ fs)" by (simp add: moved_def)
lemma moved_here: "moved s (here s) [] = s" by (simp add: moved_def here_def)
lemma lookup_cost_moved: "lookup_cost (snd (moved s p es)) = lookup_cost (snd s)" by (simp add: moved_def)

lemma stmt_returns:
  assumes "fs name = Some c" and "outcome_at c (lookup_cost (snd s)) (here s) 0 = Inr v"
  shows "stmt fs name s = (Inr (), moved s (after c (lookup_cost (snd s)) (here s)) [Lookup name, Call name])"
  using assms
  by (cases "c (rdd (fst s)) (clock (snd s) + lookup_cost (snd s))")
     (simp add: stmt_def Let_def outcome_at_def state_at_def invoke_def after_def here_def moved_def log_event_def)

lemma stmt_raises:
  assumes "fs name = Some c" and "outcome_at c (lookup_cost (snd s)) (here s) 0 = Inl x"
  shows "stmt fs name s = (Inl x, moved s (after c (lookup_cost (snd s)) (here s)) [Lookup name, Call name])"
  using assms
  by (cases "c (rdd (fst s)) (clock (snd s) + lookup_cost (snd s))")
     (simp add: stmt_def Let_def outcome_at_def state_at_def invoke_def after_def here_def moved_def log_event_def)

lemma inner_returns:
  assumes "fs name = Some c" and "\<forall>j<n. \<not> isl (outcome_at c (lookup_cost (snd s)) (here s) j)"
  shows "inner n fs name s =
           (Inr (), moved s (state_at c (lookup_cost (snd s)) (here s) n) (concat (replicate n [Lookup name, Call name])))"
  using assms
proof (induction n arbitrary: s)
  case 0
  then show ?case by (simp add: state_at_0 moved_here)
next
  case (Suc n)
  let ?lk = "lookup_cost (snd s)"
  let ?s' = "moved s (after c ?lk (here s)) [Lookup name, Call name]"
  from Suc.prems(2) have "\<not> isl (outcome_at c ?lk (here s) 0)" by blast
  then obtain v where v: "outcome_at c ?lk (here s) 0 = Inr v"
    by (cases "outcome_at c ?lk (here s) 0") auto
  have st: "stmt fs name s = (Inr (), ?s')" using stmt_returns [where fs = fs and name = name and c = c and s = s and v = v] Suc.prems(1) v by simp
  have "\<forall>j<n. \<not> isl (outcome_at c (lookup_cost (snd ?s')) (here ?s') j)"
    using Suc.prems(2) by (auto simp: lookup_cost_moved here_moved outcome_at_Suc [symmetric])
  with Suc.IH [where s = "?s'"] Suc.prems(1)
  show ?case by (simp add: st lookup_cost_moved here_moved moved_moved state_at_Suc)
qed

lemma inner_raises:
  assumes "fs name = Some c" and "k < n"
    and "\<forall>j<k. \<not> isl (outcome_at c (lookup_cost (snd s)) (here s) j)"
    and "outcome_at c (lookup_cost (snd s)) (here s) k = Inl x"
  shows "fst (inner n fs name s) = Inl x"
  using assms
proof (induction n arbitrary: s k)
  case 0
  then show ?case by simp
next
  case (Suc n)
  let ?lk = "lookup_cost (snd s)"
  let ?s' = "moved s (after c ?lk (here s)) [Lookup name, Call name]"
  show ?case
  proof (cases k)
    case 0
    with Suc.prems have "outcome_at c ?lk (here s) 0 = Inl x" by simp
    with stmt_raises [where fs = fs and name = name and c = c and s = s and x = x] Suc.prems(1) show ?thesis by simp
  next
    case (Suc k')
    with Suc.prems(3) have "\<not> isl (outcome_at c ?lk (here s) 0)" by blast
    then obtain v where v: "outcome_at c ?lk (here s) 0 = Inr v"
      by (cases "outcome_at c ?lk (here s) 0") auto
    have st: "stmt fs name s = (Inr (), ?s')" using stmt_returns [where fs = fs and name = name and c = c and s = s and v = v] Suc.prems(1) v by simp
    have a: "\<forall>j<k'. \<not> isl (outcome_at c (lookup_cost (snd ?s')) (here ?s') j)"
      using Suc.prems(3) Suc by (auto simp: lookup_cost_moved here_moved outcome_at_Suc [symmetric])
    have b: "outcome_at c (lookup_cost (snd ?s')) (here ?s') k' = Inl x"
      using Suc.prems(4) Suc by (simp add: lookup_cost_moved here_moved outcome_at_Suc)
    have "k' < n" using Suc.prems(2) Suc by simp
    with Suc.IH [where s = "?s'" and k = k'] Suc.prems(1) a b show ?thesis by (simp add: st)
  qed
qed


lemma timeit_returns:
  assumes "fs name = Some c" and "\<forall>j<n. \<not> isl (outcome_at c (lookup_cost (snd s)) (here s) j)"
  shows "timeit n fs name s =
           (Inr (snd (state_at c (lookup_cost (snd s)) (here s) n) - clock (snd s)),
            moved s (state_at c (lookup_cost (snd s)) (here s) n) (window name n))"
proof -
  let ?s0 = "(fst s, log_event TimerRead (snd s))"
  have s0: "?s0 = moved s (here s) [TimerRead]"
    by (simp add: moved_def here_def log_event_def)
  have "inner n fs name ?s0 =
          (Inr (), moved ?s0 (state_at c (lookup_cost (snd ?s0)) (here ?s0) n)
                     (concat (replicate n [Lookup name, Call name])))"
    using inner_returns [where fs = fs and name = name and c = c and s = ?s0 and n = n] assms
    by (simp add: s0 lookup_cost_moved here_moved)
  then show ?thesis
    by (simp add: timeit_def Let_def s0 lookup_cost_moved here_moved moved_moved window_def)
       (simp add: moved_def log_event_def)
qed

lemma timeit_raises:
  assumes "fs name = Some c" and "k < n"
    and "\<forall>j<k. \<not> isl (outcome_at c (lookup_cost (snd s)) (here s) j)"
    and "outcome_at c (lookup_cost (snd s)) (here s) k = Inl x"
  shows "fst (timeit n fs name s) = Inl x"
proof -
  let ?s0 = "(fst s, log_event TimerRead (snd s))"
  have s0: "?s0 = moved s (here s) [TimerRead]"
    by (simp add: moved_def here_def log_event_def)
  have "fst (inner n fs name ?s0) = Inl x"
    using inner_raises [where fs = fs and name = name and c = c and s = ?s0 and n = n and k = k and x = x] assms
    by (simp add: s0 lookup_cost_moved here_moved)
  then show ?thesis
    by (cases "inner n fs name ?s0") (simp add: timeit_def Let_def)
qed

lemma trial_mean_shift:
  "trial_mean c lk (state_at c lk p 3) i = trial_mean c lk p (Suc i)"
proof -
  have "state_at c lk (state_at c lk p 3) (3 * i + 3) = state_at c lk p (3 * Suc i + 3)"
    and "state_at c lk (state_at c lk p 3) (3 * i) = state_at c lk p (3 * Suc i)"
    using state_at_add [of c lk p 3 "3 * i + 3"] state_at_add [of c lk p 3 "3 * i"]
    by (simp_all add: add.commute)
  then show ?thesis by (simp add: trial_mean_def)
qed

lemma trials_returns:
  assumes "fs name = Some c"
    and "\<forall>j<3 * m. \<not> isl (outcome_at c (lookup_cost (snd s)) (here s) j)"
  shows "trials m fs name s =
           (Inr (map (trial_mean c (lookup_cost (snd s)) (here s)) [0..<m]),
            moved s (state_at c (lookup_cost (snd s)) (here s) (3 * m))
              (concat (replicate m (window name 3))))"
  using assms
proof (induction m arbitrary: s)
  case 0
  then show ?case by (simp add: state_at_0 moved_here)
next
  case (Suc m)
  let ?lk = "lookup_cost (snd s)"
  let ?s' = "moved s (state_at c ?lk (here s) 3) (window name 3)"
  have "\<forall>j<3. \<not> isl (outcome_at c ?lk (here s) j)" using Suc.prems(2) by simp
  with timeit_returns [where fs = fs and name = name and c = c and s = s and n = 3] Suc.prems(1)
  have t: "timeit 3 fs name s = (Inr (snd (state_at c ?lk (here s) 3) - clock (snd s)), ?s')"
    by simp
  have "\<forall>j<3 * m. \<not> isl (outcome_at c ?lk (state_at c ?lk (here s) 3) j)"
  proof (intro allI impI)
    fix j assume "j < 3 * m"
    then have "3 + j < 3 * Suc m" by simp
    with Suc.prems(2) have "\<not> isl (outcome_at c ?lk (here s) (3 + j))" by blast
    then show "\<not> isl (outcome_at c ?lk (state_at c ?lk (here s) 3) j)"
      by (simp add: outcome_at_add)
  qed
  with Suc.IH [where s = "?s'"] Suc.prems(1)
  have r: "trials m fs name ?s' =
             (Inr (map (trial_mean c ?lk (state_at c ?lk (here s) 3)) [0..<m]),
              moved ?s' (state_at c ?lk (state_at c ?lk (here s) 3) (3 * m))
                (concat (replicate m (window name 3))))"
    by (simp add: lookup_cost_moved here_moved)
  have m0: "(snd (state_at c ?lk (here s) 3) - clock (snd s)) / 3 * 1000 = trial_mean c ?lk (here s) 0"
    by (simp add: trial_mean_def state_at_0 here_def)
  have sh: "trial_mean c ?lk (state_at c ?lk (here s) 3) = (\<lambda>i. trial_mean c ?lk (here s) (Suc i))"
    by (rule ext) (rule trial_mean_shift)
  have st: "state_at c ?lk (state_at c ?lk (here s) 3) (3 * m) = state_at c ?lk (here s) (3 * Suc m)"
    using state_at_add [of c ?lk "here s" 3 "3 * m"] by simp
  show ?case
    by (simp only: trials.simps t r prod.case sum.case m0 sh st moved_moved map_upt_Suc replicate_Suc concat.simps)
qed

lemma trials_raises:
  assumes "fs name = Some c" and "k < 3 * m"
    and "\<forall>j<k. \<not> isl (outcome_at c (lookup_cost (snd s)) (here s) j)"
    and "outcome_at c (lookup_cost (snd s)) (here s) k = Inl x"
  shows "fst (trials m fs name s) = Inl x"
  using assms
proof (induction m arbitrary: s k)
  case 0
  then show ?case by simp
next
  case (Suc m)
  let ?lk = "lookup_cost (snd s)"
  let ?s' = "moved s (state_at c ?lk (here s) 3) (window name 3)"
  show ?case
  proof (cases "k < 3")
    case True
    with timeit_raises [where fs = fs and name = name and c = c and s = s and n = 3 and k = k and x = x]
      Suc.prems(1,3,4)
    have "fst (timeit 3 fs name s) = Inl x" by simp
    then show ?thesis by (cases "timeit 3 fs name s") simp
  next
    case False
    then obtain k' where k': "k = 3 + k'" using le_Suc_ex [of 3 k] by auto
    have "\<forall>j<3. \<not> isl (outcome_at c ?lk (here s) j)" using Suc.prems(3) False by simp
    with timeit_returns [where fs = fs and name = name and c = c and s = s and n = 3] Suc.prems(1)
    have t: "timeit 3 fs name s = (Inr (snd (state_at c ?lk (here s) 3) - clock (snd s)), ?s')"
      by simp
    have a: "\<forall>j<k'. \<not> isl (outcome_at c ?lk (state_at c ?lk (here s) 3) j)"
    proof (intro allI impI)
      fix j assume "j < k'"
      then have "3 + j < k" using k' by simp
      with Suc.prems(3) have "\<not> isl (outcome_at c ?lk (here s) (3 + j))" by blast
      then show "\<not> isl (outcome_at c ?lk (state_at c ?lk (here s) 3) j)"
        by (simp add: outcome_at_add)
    qed
    have b: "outcome_at c ?lk (state_at c ?lk (here s) 3) k' = Inl x"
      using Suc.prems(4) k' by (simp add: outcome_at_add)
    have "k' < 3 * m" using Suc.prems(2) k' by simp
    with Suc.IH [where s = "?s'" and k = k'] Suc.prems(1) a b
    have "fst (trials m fs name ?s') = Inl x"
      by (simp add: lookup_cost_moved here_moved)
    then show ?thesis by (cases "trials m fs name ?s'") (simp add: t)
  qed
qed

lemma run_returns:
  assumes "fs name = Some c"
    and "\<forall>j<9. \<not> isl (outcome_at c (lookup_cost w) (rdd self, clock w) j)"
  shows "run fs self name w =
           (Inr (Min {trial_mean c (lookup_cost w) (rdd self, clock w) 0,
                      trial_mean c (lookup_cost w) (rdd self, clock w) 1,
                      trial_mean c (lookup_cost w) (rdd self, clock w) 2}),
            moved (self, w) (state_at c (lookup_cost w) (rdd self, clock w) 9)
              (concat (replicate 3 (window name 3))))"
proof -
  have "trials 3 fs name (self, w) =
          (Inr (map (trial_mean c (lookup_cost w) (rdd self, clock w)) [0..<3]),
           moved (self, w) (state_at c (lookup_cost w) (rdd self, clock w) (3 * 3))
             (concat (replicate 3 (window name 3))))"
    using trials_returns [where fs = fs and name = name and c = c and s = "(self, w)" and m = 3] assms
    by (simp add: here_def)
  moreover have "[0..<3] = [0, 1, 2]" by (simp add: upt_rec)
  ultimately show ?thesis
    by (simp add: run_def min.commute min.left_commute)
qed

lemma run_raises:
  assumes "fs name = Some c" and "k < 9"
    and "\<forall>j<k. \<not> isl (outcome_at c (lookup_cost w) (rdd self, clock w) j)"
    and "outcome_at c (lookup_cost w) (rdd self, clock w) k = Inl x"
  shows "fst (run fs self name w) = Inl x"
proof -
  have "fst (trials 3 fs name (self, w)) = Inl x"
    using trials_raises [where fs = fs and name = name and c = c and s = "(self, w)" and m = 3 and k = k and x = x] assms
    by (simp add: here_def)
  then show ?thesis by (cases "trials 3 fs name (self, w)") (simp add: run_def)
qed

lemma stmt_unknown:
  "fs name = None \<Longrightarrow> fst (stmt fs name s) = Inl (KeyError name)"
  by (simp add: stmt_def Let_def)

lemma inner_unknown:
  "fs name = None \<Longrightarrow> fst (inner (Suc n) fs name s) = Inl (KeyError name)"
  using stmt_unknown [of fs name s]
  by (cases "stmt fs name s") (auto split: sum.splits)

lemma timeit_unknown:
  "fs name = None \<Longrightarrow> fst (timeit (Suc n) fs name s) = Inl (KeyError name)"
  unfolding timeit_def Let_def
  using inner_unknown [of fs name n "(fst s, log_event TimerRead (snd s))"]
  by (cases "inner (Suc n) fs name (fst s, log_event TimerRead (snd s))")
     (auto split: sum.splits)

lemma trials_unknown:
  "fs name = None \<Longrightarrow> fst (trials (Suc n) fs name s) = Inl (KeyError name)"
  using timeit_unknown [of fs name 2 s]
  by (cases "timeit 3 fs name s") (auto simp: numeral_3_eq_3 split: sum.splits)

lemma run_unknown_trace:
  "fs name = None \<Longrightarrow> trace (snd (snd (run fs self name w))) = trace w @ [TimerRead, Lookup name]"
  by (simp add: run_def numeral_3_eq_3 timeit_def stmt_def Let_def log_event_def)

section \<open>Closures of known behaviour\<close>

lemma state_at_step: "state_at c lk s (Suc k) = after c lk (state_at c lk s k)"
  by (simp add: state_at_def)

lemma state_at_timed_fst: "fst (state_at (timed d g) lk s k) = fst s"
  by (induction k) (simp_all add: state_at_0 state_at_step after_def invoke_def timed_def)

lemma outcome_at_timed: "outcome_at (timed d g) lk s k = g (fst s)"
  using state_at_timed_fst [of d g lk s k]
  by (simp add: outcome_at_def invoke_def timed_def)

lemma state_at_fixed_clock:
  assumes "\<forall>r t. snd (snd (c r t)) = t + d"
  shows "snd (state_at c lk s k) = snd s + of_nat k * (lk + d)"
proof (induction k)
  case 0
  then show ?case by (simp add: state_at_0)
next
  case (Suc k)
  have "snd (state_at c lk s (Suc k)) = snd (state_at c lk s k) + lk + d"
    using assms by (simp add: state_at_step after_def invoke_def)
  with Suc show ?case by (simp add: algebra_simps)
qed

lemma trial_mean_fixed:
  assumes "\<forall>r t. snd (snd (c r t)) = t + d"
  shows "trial_mean c lk s i = (lk + d) * 1000"
  by (simp add: trial_mean_def state_at_fixed_clock [OF assms] algebra_simps)

lemma timed_fixed: "\<forall>r t. snd (snd (timed (\<lambda>r t. d) g r t)) = t + d"
  by (simp add: timed_def)

lemma state_at_clock_grows:
  assumes "\<forall>r t. t + d \<le> snd (snd (c r t))"
  shows "snd (state_at c lk s k) + of_nat n * (lk + d) \<le> snd (state_at c lk s (k + n))"
proof (induction n)
  case 0
  then show ?case by simp
next
  case (Suc n)
  have "snd (state_at c lk s (k + n)) + lk + d \<le> snd (state_at c lk s (Suc (k + n)))"
    using assms by (simp add: state_at_step after_def invoke_def)
  with Suc show ?case by (simp add: algebra_simps)
qed

lemma trial_mean_lower:
  assumes "\<forall>r t. t + d \<le> snd (snd (c r t))"
  shows "(lk + d) * 1000 \<le> trial_mean c lk s i"
  using state_at_clock_grows [OF assms, of lk s "3 * i" 3]
  by (simp add: trial_mean_def algebra_simps)

section \<open>Lemmas on batches and on the sample closures\<close>

lemma outcome_late_boom:
  "outcome_at late_boom 0 ((), 0) 0 = Inr ()"
  "outcome_at late_boom 0 ((), 0) (Suc 0) = Inr ()"
  "outcome_at late_boom 0 ((), 0) 1 = Inr ()"
  "outcome_at late_boom 0 ((), 0) (Suc (Suc 0)) = Inr ()"
  "outcome_at late_boom 0 ((), 0) 2 = Inr ()"
  "outcome_at late_boom 0 ((), 0) 3 = Inl (Other ''boom'')"
  by (simp_all add: outcome_at_def state_at_def invoke_def after_def late_boom_def numeral_2_eq_2 numeral_3_eq_3)

lemma all_less_3: "(\<forall>j<3. P (j::nat)) = (P 0 \<and> P 1 \<and> P 2)"
  by (auto simp: numeral_3_eq_3 numeral_2_eq_2 less_Suc_eq)

lemma batch_append:
  "batch fs pre s = (Inr ts, s1) \<Longrightarrow>
   batch fs (pre @ rest) s =
     (case batch fs rest s1 of (Inl e, s') \<Rightarrow> (Inl e, s') | (Inr us, s') \<Rightarrow> (Inr (ts @ us), s'))"
proof (induction pre arbitrary: s ts)
  case Nil
  then show ?case by (auto split: prod.splits sum.splits)
next
  case (Cons k pre)
  then show ?case
    by (auto split: prod.splits sum.splits)
qed

lemma batch_fails:
  assumes "batch fs pre s = (Inr ts, s1)" and "fst (run fs (fst s1) k (snd s1)) = Inl e"
  shows "fst (batch fs (pre @ k # post) s) = Inl e"
proof -
  obtain s' where "run fs (fst s1) k (snd s1) = (Inl e, s')"
    using assms(2) by (cases "run fs (fst s1) k (snd s1)") simp
  then show ?thesis by (simp add: batch_append [OF assms(1)])
qed

lemma run_ok_bad:
  "run [''ok'' \<mapsto> delay 1, ''bad'' \<mapsto> boom] \<lparr>rdd = ()\<rparr> ''ok'' world0 =
     (Inr 1000, moved (\<lparr>rdd = ()\<rparr>, world0) ((), 9) (concat (replicate 3 (window ''ok'' 3))))"
proof -
  have "state_at (delay 1) 0 ((), 0) 9 = ((), 9)"
    using state_at_timed_fst [of "\<lambda>r t. 1" "\<lambda>r. Inr ()" 0 "((), 0)" 9]
      state_at_fixed_clock [OF timed_fixed, of 1 "\<lambda>r. Inr ()" 0 "((), 0)" 9]
    by (simp add: delay_def prod_eq_iff)
  then show ?thesis
    using run_returns [where fs = "[''ok'' \<mapsto> delay 1, ''bad'' \<mapsto> boom]" and name = "''ok''" and c = "delay 1"
        and self = "\<lparr>rdd = ()\<rparr>" and w = world0]
    by (simp add: delay_def outcome_at_timed trial_mean_fixed [OF timed_fixed] world0_def)
qed

lemma run_bad:
  "fst (run [''ok'' \<mapsto> delay 1, ''bad'' \<mapsto> boom] b ''bad'' w) = Inl (Other ''boom'')"
  using run_raises [where fs = "[''ok'' \<mapsto> delay 1, ''bad'' \<mapsto> boom]" and name = "''bad''" and c = boom
      and self = b and w = w and k = 0 and x = "Other ''boom''"]
  by (simp add: boom_def outcome_at_timed)

section \<open>The collection during a run\<close>

lemma stmt_rdd:
  assumes "\<forall>c r t. fs name = Some c \<longrightarrow> fst (snd (c r t)) = r"
  shows "rdd (fst (snd (stmt fs name s))) = rdd (fst s)"
proof (cases "fs name")
  case None
  then show ?thesis by (simp add: stmt_def Let_def)
next
  case (Some c)
  obtain out r' t' where c: "c (rdd (fst s)) (clock (snd s) + lookup_cost (snd s)) = (out, r', t')"
    by (cases "c (rdd (fst s)) (clock (snd s) + lookup_cost (snd s))") auto
  with assms Some have "r' = rdd (fst s)"
    by (metis fst_conv snd_conv)
  with Some c show ?thesis
    by (cases out) (simp_all add: stmt_def Let_def log_event_def)
qed

lemma inner_rdd:
  assumes "\<forall>c r t. fs name = Some c \<longrightarrow> fst (snd (c r t)) = r"
  shows "rdd (fst (snd (inner n fs name s))) = rdd (fst s)"
proof (induction n arbitrary: s)
  case 0
  then show ?case by simp
next
  case (Suc n)
  obtain o1 s1 where s1: "stmt fs name s = (o1, s1)" by (cases "stmt fs name s") auto
  with stmt_rdd [where fs = fs and name = name and s = s] assms
  have "rdd (fst s1) = rdd (fst s)" by simp
  with Suc [of s1] s1 show ?case by (cases o1) simp_all
qed

lemma timeit_rdd:
  assumes "\<forall>c r t. fs name = Some c \<longrightarrow> fst (snd (c r t)) = r"
  shows "rdd (fst (snd (timeit n fs name s))) = rdd (fst s)"
proof -
  obtain o1 s1 where s1: "inner n fs name (fst s, log_event TimerRead (snd s)) = (o1, s1)"
    by (cases "inner n fs name (fst s, log_event TimerRead (snd s))") auto
  with inner_rdd [where fs = fs and name = name and n = n and s = "(fst s, log_event TimerRead (snd s))"] assms
  have "rdd (fst s1) = rdd (fst s)" by simp
  with s1 show ?thesis by (cases o1) (simp_all add: timeit_def Let_def)
qed

lemma trials_rdd:
  assumes "\<forall>c r t. fs name = Some c \<longrightarrow> fst (snd (c r t)) = r"
  shows "rdd (fst (snd (trials n fs name s))) = rdd (fst s)"
proof (induction n arbitrary: s)
  case 0
  then show ?case by simp
next
  case (Suc n)
  obtain o1 s1 where s1: "timeit 3 fs name s = (o1, s1)" by (cases "timeit 3 fs name s") auto
  with timeit_rdd [where fs = fs and name = name and n = 3 and s = s] assms
  have e1: "rdd (fst s1) = rdd (fst s)" by simp
  obtain o2 s2 where s2: "trials n fs name s1 = (o2, s2)" by (cases "trials n fs name s1") auto
  with Suc [of s1] e1 have "rdd (fst s2) = rdd (fst s)" by simp
  with s1 s2 e1 show ?case by (cases o1; cases o2) simp_all
qed

lemma run_rdd:
  assumes "\<forall>c r t. fs name = Some c \<longrightarrow> fst (snd (c r t)) = r"
  shows "rdd (fst (snd (run fs self name w))) = rdd self"
proof -
  obtain o1 s1 where s1: "trials 3 fs name (self, w) = (o1, s1)"
    by (cases "trials 3 fs name (self, w)") auto
  with trials_rdd [where fs = fs and name = name and n = 3 and s = "(self, w)"] assms
  have "rdd (fst s1) = rdd self" by simp
  with s1 show ?thesis by (cases o1) (simp_all add: run_def)
qed

lemma funcs_timed:
  "funcs dur add maximum vsum name = Some c \<Longrightarrow> \<exists>d g. c = timed d g"
  by (auto simp: funcs_def split: if_splits)

lemma run_reduce_empty:
  assumes "fs name = Some (timed d (\<lambda>r. map_sum Other Single (reduce f r)))"
  shows "fst (run fs \<lparr>rdd = []\<rparr> name w) = Inl (Other EmptyCollectionError)"
  using run_raises [where fs = fs and name = name and c = "timed d (\<lambda>r. map_sum Other Single (reduce f r))"
      and self = "\<lparr>rdd = []\<rparr>" and w = w and k = 0 and x = "Other EmptyCollectionError"] assms
  by (simp add: outcome_at_timed reduce_def)

section \<open>The claims\<close>

text \<open>
  C1. When the name is in the catalog and the nine evaluations of the timed statement
  return, \<^verbatim>\<open>run\<close> returns the least of the three trial means: trial \<open>i\<close>
  measures evaluations \<open>3 * i\<close> to \<open>3 * i + 2\<close> with one pair of timer readings, and
  its mean is that time in seconds, divided by three and multiplied by 1000.
\<close>

theorem run_min_of_trial_means:
  assumes "fs name = Some c"
    and "\<forall>k<9. \<not> isl (outcome_at c (lookup_cost w) (rdd self, clock w) k)"
  shows "fst (run fs self name w) =
           Inr (Min {trial_mean c (lookup_cost w) (rdd self, clock w) 0,
                     trial_mean c (lookup_cost w) (rdd self, clock w) 1,
                     trial_mean c (lookup_cost w) (rdd self, clock w) 2})"
  using run_returns [where fs = fs and name = name and c = c and self = self and w = w] assms
  by simp

theorem run_min_of_trial_means_witness:
  "[''sum'' \<mapsto> delay 2] ''sum'' = Some (delay 2)
   \<and> list_all (\<lambda>k. \<not> isl (outcome_at (delay 2) (lookup_cost world0) (rdd \<lparr>rdd = ()\<rparr>, clock world0) k)) [0..<9]
   \<and> fst (run [''sum'' \<mapsto> delay 2] \<lparr>rdd = ()\<rparr> ''sum'' world0) = Inr 2000"
  using run_min_of_trial_means [of "[''sum'' \<mapsto> delay 2]" "''sum''" "delay 2" world0 "\<lparr>rdd = ()\<rparr>"]
  by (simp add: delay_def outcome_at_timed trial_mean_fixed [OF timed_fixed] world0_def list_all_iff)

text \<open>
  C2, as stated, fails: the notebook has no error of its own for an unknown name. The
  lookup \<^verbatim>\<open>funcs[name]\<close> raises Python's \<^verbatim>\<open>KeyError\<close>, and the run of a
  name that is absent ends exactly as the run of a name that is present and whose closure
  raises \<^verbatim>\<open>KeyError\<close> with that key: the caller cannot tell an unknown operation
  from a failing one.
\<close>

theorem unknown_operation_error_counterexample:
  "fst (run [''max'' \<mapsto> delay 1] \<lparr>rdd = ()\<rparr> ''sum'' world0) = Inl (KeyError ''sum'')
   \<and> fst (run [''max'' \<mapsto> delay 1, ''sum'' \<mapsto> timed (\<lambda>r t. 0) (\<lambda>r. Inl (KeyError ''sum''))]
             \<lparr>rdd = ()\<rparr> ''sum'' world0) = Inl (KeyError ''sum'')"
proof -
  have "fst (run [''max'' \<mapsto> delay 1] \<lparr>rdd = ()\<rparr> ''sum'' world0) = Inl (KeyError ''sum'')"
    using trials_unknown [of "[''max'' \<mapsto> delay 1]" "''sum''" 2 "(\<lparr>rdd = ()\<rparr>, world0)"]
    by (cases "trials 3 [''max'' \<mapsto> delay 1] ''sum'' (\<lparr>rdd = ()\<rparr>, world0)")
       (auto simp: run_def numeral_3_eq_3 split: sum.splits)
  moreover
  have "fst (run [''max'' \<mapsto> delay 1, ''sum'' \<mapsto> timed (\<lambda>r t. 0) (\<lambda>r. Inl (KeyError ''sum''))]
             \<lparr>rdd = ()\<rparr> ''sum'' world0) = Inl (KeyError ''sum'')"
    using run_raises [where fs = "[''max'' \<mapsto> delay 1, ''sum'' \<mapsto> timed (\<lambda>r t. 0) (\<lambda>r. Inl (KeyError ''sum''))]"
        and name = "''sum''" and c = "timed (\<lambda>r t. 0) (\<lambda>r. Inl (KeyError ''sum''))"
        and self = "\<lparr>rdd = ()\<rparr>" and w = world0 and k = 0 and x = "KeyError ''sum''"]
    by (simp add: outcome_at_timed)
  ultimately show ?thesis by simp
qed

text \<open>
  C2, amended. A name that is absent from the catalog makes \<^verbatim>\<open>run\<close> fail with
  Python's \<^verbatim>\<open>KeyError\<close> carrying the name, and with no other error; it is raised
  by the lookup of the first timed evaluation, after the first timer reading and before
  any closure is called.
\<close>

theorem run_unknown_operation:
  "fs name = None \<Longrightarrow>
     fst (run fs self name w) = Inl (KeyError name)
     \<and> trace (snd (snd (run fs self name w))) = trace w @ [TimerRead, Lookup name]"
proof -
  assume a: "fs name = None"
  have "fst (run fs self name w) = Inl (KeyError name)"
    unfolding run_def
    using trials_unknown [of fs name 2 "(self, w)"] a
    by (cases "trials 3 fs name (self, w)") (auto simp: numeral_3_eq_3 split: sum.splits)
  with run_unknown_trace [of fs name self w] a show ?thesis by simp
qed

theorem run_unknown_operation_witness:
  "[''sum'' \<mapsto> delay 1, ''max'' \<mapsto> delay 2] ''nonexistent'' = None
   \<and> fst (run [''sum'' \<mapsto> delay 1, ''max'' \<mapsto> delay 2] \<lparr>rdd = ()\<rparr> ''nonexistent'' world0)
       = Inl (KeyError ''nonexistent'')
   \<and> trace (snd (snd (run [''sum'' \<mapsto> delay 1, ''max'' \<mapsto> delay 2] \<lparr>rdd = ()\<rparr> ''nonexistent'' world0)))
       = [TimerRead, Lookup ''nonexistent'']"
  using run_unknown_operation [of "[''sum'' \<mapsto> delay 1, ''max'' \<mapsto> delay 2]" "''nonexistent''" "\<lparr>rdd = ()\<rparr>" world0]
  by (simp add: world0_def)

text \<open>
  C3, as stated, fails: the error that reaches the caller is the closure's own. Operation
  \<^verbatim>\<open>a\<close> raises in its first evaluation (trial 0), operation \<^verbatim>\<open>b\<close> in its
  fourth (trial 1), and both runs end with the same error, which names neither the
  operation nor the trial.
\<close>

theorem failure_context_counterexample:
  "fst (run [''a'' \<mapsto> boom, ''b'' \<mapsto> late_boom] \<lparr>rdd = ()\<rparr> ''a'' world0) = Inl (Other ''boom'')
   \<and> fst (run [''a'' \<mapsto> boom, ''b'' \<mapsto> late_boom] \<lparr>rdd = ()\<rparr> ''b'' world0) = Inl (Other ''boom'')"
proof -
  have "fst (run [''a'' \<mapsto> boom, ''b'' \<mapsto> late_boom] \<lparr>rdd = ()\<rparr> ''a'' world0) = Inl (Other ''boom'')"
    using run_raises [where fs = "[''a'' \<mapsto> boom, ''b'' \<mapsto> late_boom]" and name = "''a''" and c = boom
        and self = "\<lparr>rdd = ()\<rparr>" and w = world0 and k = 0 and x = "Other ''boom''"]
    by (simp add: boom_def outcome_at_timed)
  moreover
  have "fst (run [''a'' \<mapsto> boom, ''b'' \<mapsto> late_boom] \<lparr>rdd = ()\<rparr> ''b'' world0) = Inl (Other ''boom'')"
    using run_raises [where fs = "[''a'' \<mapsto> boom, ''b'' \<mapsto> late_boom]" and name = "''b''" and c = late_boom
        and self = "\<lparr>rdd = ()\<rparr>" and w = world0 and k = 3 and x = "Other ''boom''"]
    by (simp add: world0_def outcome_late_boom all_less_3)
  ultimately show ?thesis by simp
qed

text \<open>
  C3, amended. When an evaluation of the timed statement raises, the evaluations before
  it having returned, \<^verbatim>\<open>run\<close> ends with exactly that failure, unchanged, and
  returns no timing.
\<close>

theorem run_propagates_failure:
  assumes "fs name = Some c" and "k < 9"
    and "\<forall>j<k. \<not> isl (outcome_at c (lookup_cost w) (rdd self, clock w) j)"
    and "outcome_at c (lookup_cost w) (rdd self, clock w) k = Inl x"
  shows "fst (run fs self name w) = Inl x"
  using run_raises [where fs = fs and name = name and c = c and self = self and w = w and k = k and x = x] assms
  by simp

theorem run_propagates_failure_witness:
  "[''b'' \<mapsto> late_boom] ''b'' = Some late_boom \<and> (3::nat) < 9
   \<and> list_all (\<lambda>j. \<not> isl (outcome_at late_boom (lookup_cost world0) (rdd \<lparr>rdd = ()\<rparr>, clock world0) j)) [0..<3]
   \<and> outcome_at late_boom (lookup_cost world0) (rdd \<lparr>rdd = ()\<rparr>, clock world0) 3 = Inl (Other ''boom'')
   \<and> fst (run [''b'' \<mapsto> late_boom] \<lparr>rdd = ()\<rparr> ''b'' world0) = Inl (Other ''boom'')"
  using run_propagates_failure [of "[''b'' \<mapsto> late_boom]" "''b''" late_boom 3 world0 "\<lparr>rdd = ()\<rparr>" "Other ''boom''"]
  by (simp add: world0_def outcome_late_boom all_less_3 upt_rec)

text \<open>
  C4, as stated, fails: \<^verbatim>\<open>ok\<close> alone is timed at 1000 milliseconds, but the
  batch over \<^verbatim>\<open>ok\<close> and the failing \<^verbatim>\<open>bad\<close> ends with the failure and
  binds nothing to \<^verbatim>\<open>distributed\<close>.
\<close>

theorem batch_keeps_timings_counterexample:
  "fst (run [''ok'' \<mapsto> delay 1, ''bad'' \<mapsto> boom] \<lparr>rdd = ()\<rparr> ''ok'' world0) = Inr 1000
   \<and> fst (cell_distributed [''ok'' \<mapsto> delay 1, ''bad'' \<mapsto> boom] [''ok'', ''bad'']
            \<lparr>distributed = None, local = None\<rparr> (\<lparr>rdd = ()\<rparr>, world0)) = Some (Other ''boom'')
   \<and> fst (snd (cell_distributed [''ok'' \<mapsto> delay 1, ''bad'' \<mapsto> boom] [''ok'', ''bad'']
            \<lparr>distributed = None, local = None\<rparr> (\<lparr>rdd = ()\<rparr>, world0))) = \<lparr>distributed = None, local = None\<rparr>"
proof -
  let ?fs = "[''ok'' \<mapsto> delay 1, ''bad'' \<mapsto> boom]"
  let ?s1 = "moved (\<lparr>rdd = ()\<rparr>, world0) ((), 9) (concat (replicate 3 (window ''ok'' 3)))"
  have b: "batch ?fs [''ok''] (\<lparr>rdd = ()\<rparr>, world0) = (Inr [1000], ?s1)"
    by (simp add: run_ok_bad)
  have "fst (batch ?fs ([''ok''] @ ''bad'' # []) (\<lparr>rdd = ()\<rparr>, world0)) = Inl (Other ''boom'')"
    by (rule batch_fails [OF b]) (rule run_bad)
  then show ?thesis
    by (cases "batch ?fs [''ok'', ''bad''] (\<lparr>rdd = ()\<rparr>, world0)")
       (simp add: cell_distributed_def run_ok_bad)
qed

text \<open>
  C4, amended. When the runs of the first keys of a batch return and the run of the next
  key fails, the comprehension ends with that failure and the assignment does not happen:
  the names \<^verbatim>\<open>distributed\<close> and \<^verbatim>\<open>local\<close> keep what they were bound
  to, and the timings of the earlier keys are lost.
\<close>

theorem batch_failure_discards:
  assumes "batch fs pre s = (Inr ts, s1)" and "fst (run fs (fst s1) k (snd s1)) = Inl e"
  shows "fst (cell_distributed fs (pre @ k # post) ns s) = Some e
         \<and> fst (snd (cell_distributed fs (pre @ k # post) ns s)) = ns
         \<and> fst (cell_local fs (pre @ k # post) ns s) = Some e
         \<and> fst (snd (cell_local fs (pre @ k # post) ns s)) = ns"
  using batch_fails [OF assms, of post]
  by (cases "batch fs (pre @ k # post) s") (simp add: cell_distributed_def cell_local_def)

theorem batch_failure_discards_witness:
  "batch [''ok'' \<mapsto> delay 1, ''bad'' \<mapsto> boom] [''ok''] (\<lparr>rdd = ()\<rparr>, world0) =
     (Inr [1000], moved (\<lparr>rdd = ()\<rparr>, world0) ((), 9) (concat (replicate 3 (window ''ok'' 3))))
   \<and> fst (run [''ok'' \<mapsto> delay 1, ''bad'' \<mapsto> boom]
            (fst (moved (\<lparr>rdd = ()\<rparr>, world0) ((), 9) (concat (replicate 3 (window ''ok'' 3))))) ''bad''
            (snd (moved (\<lparr>rdd = ()\<rparr>, world0) ((), 9) (concat (replicate 3 (window ''ok'' 3)))))) = Inl (Other ''boom'')
   \<and> fst (cell_distributed [''ok'' \<mapsto> delay 1, ''bad'' \<mapsto> boom] ([''ok''] @ ''bad'' # [])
            \<lparr>distributed = Some [5], local = None\<rparr> (\<lparr>rdd = ()\<rparr>, world0)) = Some (Other ''boom'')
   \<and> fst (snd (cell_distributed [''ok'' \<mapsto> delay 1, ''bad'' \<mapsto> boom] ([''ok''] @ ''bad'' # [])
            \<lparr>distributed = Some [5], local = None\<rparr> (\<lparr>rdd = ()\<rparr>, world0))) = \<lparr>distributed = Some [5], local = None\<rparr>"
  using batch_failure_discards [of "[''ok'' \<mapsto> delay 1, ''bad'' \<mapsto> boom]" "[''ok'']" "(\<lparr>rdd = ()\<rparr>, world0)"
      "[1000]" "moved (\<lparr>rdd = ()\<rparr>, world0) ((), 9) (concat (replicate 3 (window ''ok'' 3)))" "''bad''"
      "Other ''boom''" "[]" "\<lparr>distributed = Some [5], local = None\<rparr>"]
  by (simp add: run_ok_bad run_bad)

text \<open>
  C5. \<^verbatim>\<open>run\<close> itself never changes the collection: with closures that hand their
  argument back as it was, the collection in the \<^verbatim>\<open>Benchmark\<close> after a run is the
  one before it. The closures of the notebook's catalog are such closures (the engine's
  operations build new collections), so for every name the collection and its
  \<open>collect\<close> are the same before and after a run, whether it returns or fails; and a
  closure of the catalog called twice in a row gives the same result both times and leaves
  the collection as it was.
\<close>

theorem catalog_leaves_collection:
  "((\<forall>c r t. fs name' = Some c \<longrightarrow> fst (snd (c r t)) = r) \<longrightarrow>
      rdd (fst (snd (run fs self' name' w'))) = rdd self')
   \<and> rdd (fst (snd (run (funcs dur add maximum vsum) self name w))) = rdd self
   \<and> collect (rdd (fst (snd (run (funcs dur add maximum vsum) self name w)))) = collect (rdd self)
   \<and> (funcs dur add maximum vsum name = Some c \<longrightarrow>
        (case c C t of (out1, C1, t1) \<Rightarrow>
           (case c C1 t1 of (out2, C2, t2) \<Rightarrow> out2 = out1 \<and> C1 = C \<and> C2 = C)))"
proof -
  have g: "(\<forall>c r t. fs name' = Some c \<longrightarrow> fst (snd (c r t)) = r) \<longrightarrow>
      rdd (fst (snd (run fs self' name' w'))) = rdd self'"
    using run_rdd [where fs = fs and name = name' and self = self' and w = w'] by blast
  have p: "\<forall>c r t. funcs dur add maximum vsum name = Some c \<longrightarrow> fst (snd (c r t)) = r"
  proof (intro allI impI)
    fix c r t assume "funcs dur add maximum vsum name = Some c"
    then obtain d g where "c = timed d g" using funcs_timed by blast
    then show "fst (snd (c r t)) = r" by (simp add: timed_def)
  qed
  have a: "rdd (fst (snd (run (funcs dur add maximum vsum) self name w))) = rdd self"
    using run_rdd [where fs = "funcs dur add maximum vsum" and name = name and self = self and w = w] p
    by simp
  have b: "funcs dur add maximum vsum name = Some c \<longrightarrow>
        (case c C t of (out1, C1, t1) \<Rightarrow>
           (case c C1 t1 of (out2, C2, t2) \<Rightarrow> out2 = out1 \<and> C1 = C \<and> C2 = C))"
  proof
    assume "funcs dur add maximum vsum name = Some c"
    then obtain d g where "c = timed d g" using funcs_timed by blast
    then show "case c C t of (out1, C1, t1) \<Rightarrow>
           (case c C1 t1 of (out2, C2, t2) \<Rightarrow> out2 = out1 \<and> C1 = C \<and> C2 = C)"
      by (simp add: timed_def)
  qed
  from g a b show ?thesis by simp
qed

theorem catalog_leaves_collection_witness:
  "rdd (fst (snd (run ([''noop'' \<mapsto> timed (\<lambda>r t. 1) (\<lambda>r. Inr ())] :: (nat, string, unit) catalog)
                        \<lparr>rdd = 7\<rparr> ''noop'' world0))) = 7
   \<and> funcs (\<lambda>n r t. 1) (+) max id ''sum'' = Some (timed (\<lambda>r t. 1) (\<lambda>r. map_sum Other Single (reduce (+) r)))
   \<and> collect (rdd (fst (snd (run (funcs (\<lambda>n r t. 1) (+) max id) \<lparr>rdd = [(1, 10), (2, 20::int)]\<rparr> ''sum'' world0)))) = [10, 20]
   \<and> (case timed (\<lambda>r t. 1) (\<lambda>r. map_sum Other Single (reduce (+) r)) [(1, 10), (2, 20::int)] 0 of
        (out1, C1, t1) \<Rightarrow>
          (case timed (\<lambda>r t. 1) (\<lambda>r. map_sum Other Single (reduce (+) r)) C1 t1 of
             (out2, C2, t2) \<Rightarrow> out2 = out1 \<and> out2 = Inr (Single 30) \<and> C2 = [(1, 10), (2, 20)]))"
  using catalog_leaves_collection [where fs = "[''noop'' \<mapsto> timed (\<lambda>r t. 1) (\<lambda>r. Inr ())] :: (nat, string, unit) catalog"
      and name' = "''noop''" and self' = "\<lparr>rdd = 7\<rparr>" and w' = world0
      and dur = "\<lambda>n r t. 1" and add = "(+)" and maximum = max and vsum = id
      and self = "\<lparr>rdd = [(1, 10), (2, 20::int)]\<rparr>" and name = "''sum''" and w = world0
      and c = "timed (\<lambda>r t. 1) (\<lambda>r. map_sum Other Single (reduce (+) r))" and C = "[(1, 10), (2, 20)]" and t = 0]
  by (simp add: funcs_def timed_def reduce_def collect_def)

text \<open>
  C6. An operation that always returns and takes at least \<open>d\<close> seconds (a fixed delay
  \<open>d\<close> and noise that is not negative) is timed at no less than \<open>d\<close>, that is
  \<open>1000 * d\<close> milliseconds (and so no less than the number \<open>d\<close> itself when
  \<open>d\<close> is not negative), and at no more than the greatest of the three trial means. The
  time of a lookup is not negative.
\<close>

theorem run_bounds:
  assumes "fs name = Some c"
    and "\<forall>r t. \<not> isl (fst (c r t)) \<and> t + d \<le> snd (snd (c r t))"
    and "0 \<le> lookup_cost w"
  shows "\<exists>v. fst (run fs self name w) = Inr v
           \<and> 1000 * d \<le> v \<and> (0 \<le> d \<longrightarrow> d \<le> v)
           \<and> v \<le> Max {trial_mean c (lookup_cost w) (rdd self, clock w) 0,
                       trial_mean c (lookup_cost w) (rdd self, clock w) 1,
                       trial_mean c (lookup_cost w) (rdd self, clock w) 2}"
proof -
  let ?tm = "trial_mean c (lookup_cost w) (rdd self, clock w)"
  have ok: "\<forall>k<9. \<not> isl (outcome_at c (lookup_cost w) (rdd self, clock w) k)"
    using assms(2) by (simp add: outcome_at_def invoke_def)
  have r: "fst (run fs self name w) = Inr (Min {?tm 0, ?tm 1, ?tm 2})"
    using run_returns [where fs = fs and name = name and c = c and self = self and w = w] assms(1) ok
    by simp
  have g: "\<forall>r t. t + d \<le> snd (snd (c r t))" using assms(2) by simp
  have "1000 * d \<le> ?tm i" for i
    using trial_mean_lower [OF g, of "lookup_cost w" "(rdd self, clock w)" i] assms(3)
    by (simp add: algebra_simps)
  then have lo: "1000 * d \<le> Min {?tm 0, ?tm 1, ?tm 2}" by simp
  then have lo': "0 \<le> d \<longrightarrow> d \<le> Min {?tm 0, ?tm 1, ?tm 2}" by linarith
  have "Min {?tm 0, ?tm 1, ?tm 2} \<le> ?tm 0" by simp
  moreover have "?tm 0 \<le> Max {?tm 0, ?tm 1, ?tm 2}" by simp
  ultimately have "Min {?tm 0, ?tm 1, ?tm 2} \<le> Max {?tm 0, ?tm 1, ?tm 2}"
    by (rule order_trans)
  with r lo lo' show ?thesis by blast
qed

theorem run_bounds_witness:
  "[''sum'' \<mapsto> delay 2] ''sum'' = Some (delay 2)
   \<and> (\<forall>r t. \<not> isl (fst (delay 2 r t)) \<and> t + 2 \<le> snd (snd (delay 2 r t)))
   \<and> 0 \<le> lookup_cost world0
   \<and> (\<exists>v. fst (run [''sum'' \<mapsto> delay 2] \<lparr>rdd = ()\<rparr> ''sum'' world0) = Inr v \<and> 1000 * 2 \<le> v \<and> 2 \<le> v)"
  using run_bounds [of "[''sum'' \<mapsto> delay 2]" "''sum''" "delay 2" 2 world0 "\<lparr>rdd = ()\<rparr>"]
  by (auto simp: delay_def timed_def world0_def)

text \<open>
  C7. \<open>reduce\<close> of the collection built from empty sequences fails with
  \<open>EmptyCollectionError\<close>; on a collection that is not empty it returns a value; and an
  operation of the engine applied to a collection fails only if it is \<open>reduce\<close> and the
  collection is empty. The entries \<^verbatim>\<open>sum\<close> and \<^verbatim>\<open>max\<close> of the catalog, which
  reduce, make a run on the empty collection fail with that error.
\<close>

theorem reduce_only_engine_error:
  "Collection_from [] [] = Inr ([] :: ('k, 'v) Collection)
   \<and> reduce f ([] :: ('k, 'v) Collection) = Inl EmptyCollectionError
   \<and> (c \<noteq> [] \<longrightarrow> (\<exists>v. reduce f c = Inr v))
   \<and> ((apply_operation op c = Inl e) = ((\<exists>g. op = Reduce g) \<and> c = [] \<and> e = EmptyCollectionError))
   \<and> fst (run (funcs dur add maximum vsum) \<lparr>rdd = []\<rparr> ''sum'' w) = Inl (Other EmptyCollectionError)
   \<and> fst (run (funcs dur add maximum vsum) \<lparr>rdd = []\<rparr> ''max'' w) = Inl (Other EmptyCollectionError)"
proof -
  have "(apply_operation op c = Inl e) = ((\<exists>g. op = Reduce g) \<and> c = [] \<and> e = EmptyCollectionError)"
    by (cases op; cases c) (auto simp: reduce_def)
  moreover have "c \<noteq> [] \<longrightarrow> (\<exists>v. reduce f c = Inr v)"
    by (cases c) (auto simp: reduce_def)
  moreover have "fst (run (funcs dur add maximum vsum) \<lparr>rdd = []\<rparr> ''sum'' w) = Inl (Other EmptyCollectionError)"
    by (rule run_reduce_empty [where d = "dur ''sum''" and f = add]) (simp add: funcs_def)
  moreover have "fst (run (funcs dur add maximum vsum) \<lparr>rdd = []\<rparr> ''max'' w) = Inl (Other EmptyCollectionError)"
    by (rule run_reduce_empty [where d = "dur ''max''" and f = maximum]) (simp add: funcs_def)
  ultimately show ?thesis by (simp add: reduce_def Collection_from_def)
qed

theorem reduce_only_engine_error_witness:
  "[(1::int, 10::int), (1, 20)] \<noteq> [] \<and> reduce (+) [(1::int, 10::int), (1, 20)] = Inr 30
   \<and> apply_operation (Reduce (+)) ([] :: (int, int) Collection) = Inl EmptyCollectionError"
  using reduce_only_engine_error [of "(+)" "[(1::int, 10::int), (1, 20)]" "Reduce (+)" EmptyCollectionError]
    reduce_only_engine_error [of "(+)" "[] :: (int, int) Collection" "Reduce (+)" EmptyCollectionError]
  by (simp add: reduce_def)

text \<open>
  C8. The scenario of values 10, 20, 30, 40 under keys 1, 1, 2, 2: the groups as a
  mapping, the records of \<open>reduce_by_key\<close> as a set of two, the filtered records in order,
  and the sum.
\<close>

theorem concrete_scenario:
  "Collection_from [10, 20, 30, 40 :: int] [1, 1, 2, 2 :: int] = Inr [(1, 10), (1, 20), (2, 30), (2, 40)]
   \<and> map_of (group_by_key [(1, 10), (1, 20), (2, 30), (2, 40 :: int)]) = [1 :: int \<mapsto> [10, 20], 2 \<mapsto> [30, 40]]
   \<and> set (reduce_by_key (+) [(1, 10), (1, 20), (2, 30), (2, 40 :: int)]) = {(1 :: int, 30), (2, 70)}
   \<and> length (reduce_by_key (+) [(1 :: int, 10), (1, 20), (2, 30), (2, 40 :: int)]) = 2
   \<and> filter_rdd (\<lambda>(k, v). k > 1) [(1, 10), (1, 20), (2, 30), (2, 40 :: int)] = [(2 :: int, 30), (2, 40)]
   \<and> reduce (+) [(1 :: int, 10), (1, 20), (2, 30), (2, 40 :: int)] = Inr 100"
  by (simp add: Collection_from_def group_by_key_def reduce_by_key_def filter_rdd_def reduce_def fun_eq_iff)

text \<open>
  C9. When the name is in the catalog and the evaluations return, one \<^verbatim>\<open>run\<close>
  adds three trials to the trace, each a timer reading, three times the lookup followed by
  the call, and a timer reading: nine calls of the closure, every lookup between the two
  readings of its trial. For a closure that takes \<open>d\<close> seconds, the time reported per
  evaluation is the time of the lookup plus \<open>d\<close>.
\<close>

theorem run_invocations:
  assumes "fs name = Some c"
    and "\<forall>k<9. \<not> isl (outcome_at c (lookup_cost w) (rdd self, clock w) k)"
  shows "trace (snd (snd (run fs self name w))) =
           trace w
           @ [TimerRead, Lookup name, Call name, Lookup name, Call name, Lookup name, Call name, TimerRead]
           @ [TimerRead, Lookup name, Call name, Lookup name, Call name, Lookup name, Call name, TimerRead]
           @ [TimerRead, Lookup name, Call name, Lookup name, Call name, Lookup name, Call name, TimerRead]
         \<and> length (filter (\<lambda>e. e = Call name) (drop (length (trace w)) (trace (snd (snd (run fs self name w)))))) = 9
         \<and> ((\<forall>r t. snd (snd (c r t)) = t + d) \<longrightarrow> fst (run fs self name w) = Inr ((lookup_cost w + d) * 1000))"
  using run_returns [where fs = fs and name = name and c = c and self = self and w = w] assms
  by (simp add: moved_def window_def numeral_3_eq_3 trial_mean_fixed)

theorem run_invocations_witness:
  "[''sum'' \<mapsto> delay 2] ''sum'' = Some (delay 2)
   \<and> list_all (\<lambda>k. \<not> isl (outcome_at (delay 2) (lookup_cost (world0\<lparr>lookup_cost := 1\<rparr>))
                                 (rdd \<lparr>rdd = ()\<rparr>, clock (world0\<lparr>lookup_cost := 1\<rparr>)) k)) [0..<9]
   \<and> length (filter (\<lambda>e. e = Call ''sum'')
        (trace (snd (snd (run [''sum'' \<mapsto> delay 2] \<lparr>rdd = ()\<rparr> ''sum'' (world0\<lparr>lookup_cost := 1\<rparr>)))))) = 9
   \<and> fst (run [''sum'' \<mapsto> delay 2] \<lparr>rdd = ()\<rparr> ''sum'' (world0\<lparr>lookup_cost := 1\<rparr>)) = Inr 3000"
  using run_invocations [of "[''sum'' \<mapsto> delay 2]" "''sum''" "delay 2" "world0\<lparr>lookup_cost := 1\<rparr>" "\<lparr>rdd = ()\<rparr>" 2]
  by (simp add: delay_def outcome_at_timed timed_fixed world0_def list_all_iff)

text \<open>
  C10. A \<^verbatim>\<open>Benchmark\<close> holds the collection only. Whatever the catalog held
  before, \<^verbatim>\<open>run\<close> times the closure that is bound to the name when it is called,
  so two closures of different duration bound to the same name give different results for
  the same \<^verbatim>\<open>Benchmark\<close>, name and world.
\<close>

theorem run_reads_catalog_at_call:
  "fst (run (fs(name \<mapsto> timed (\<lambda>r t. d) (\<lambda>r. Inr v))) (Benchmark_init r0) name w)
     = Inr ((lookup_cost w + d) * 1000)
   \<and> (d1 \<noteq> d2 \<longrightarrow>
        fst (run (fs(name \<mapsto> timed (\<lambda>r t. d1) (\<lambda>r. Inr v))) (Benchmark_init r0) name w)
        \<noteq> fst (run (fs(name \<mapsto> timed (\<lambda>r t. d2) (\<lambda>r. Inr v))) (Benchmark_init r0) name w))"
proof -
  have "fst (run (fs(name \<mapsto> timed (\<lambda>r t. e) (\<lambda>r. Inr v))) (Benchmark_init r0) name w)
          = Inr ((lookup_cost w + e) * 1000)" for e
    using run_returns [where fs = "fs(name \<mapsto> timed (\<lambda>r t. e) (\<lambda>r. Inr v))" and name = name
        and c = "timed (\<lambda>r t. e) (\<lambda>r. Inr v)" and self = "Benchmark_init r0" and w = w]
    by (simp add: outcome_at_timed trial_mean_fixed [OF timed_fixed])
  then show ?thesis by simp
qed

theorem run_reads_catalog_at_call_witness:
  "(1::rat) \<noteq> 2 \<and>
   fst (run ([''sum'' \<mapsto> delay 5](''sum'' \<mapsto> timed (\<lambda>r t. 1) (\<lambda>r. Inr ()))) (Benchmark_init ()) ''sum'' world0)
   \<noteq> fst (run ([''sum'' \<mapsto> delay 5](''sum'' \<mapsto> timed (\<lambda>r t. 2) (\<lambda>r. Inr ()))) (Benchmark_init ()) ''sum'' world0)"
proof -
  have "(1::rat) \<noteq> 2" by simp
  with run_reads_catalog_at_call [of "[''sum'' \<mapsto> delay 5]" "''sum''" 1 "()" "()" world0 1 2]
  show ?thesis by blast
qed

end
